theory Spec2Isabelle
  imports Main "HOL-Library.AList" "HOL-Library.Word"
begin

section \<open>The Ingress processor of helmify (pkg/processor/service/ingress.go)\<close>

text \<open>
  The processor turns a Kubernetes Ingress document into a Helm template and a tree of
  values. This theory embeds \<^verbatim>\<open>ingress.go\<close> function by function. Pointers of the Go
  code become \<open>option\<close> (\<open>None\<close> is the nil pointer), in-place mutation becomes a returned
  copy, an \<open>error\<close> result becomes a sum or an \<open>error option\<close>.
\<close>

subsection \<open>Errors\<close>

datatype error =
    Errorf string
  | Wrapped error string
  | NotAMap string
  | EmptyFields

subsection \<open>Values trees (helmify.Values, a map[string]interface\{\})\<close>

text \<open>
  A Go map is kept as an association list whose keys are distinct: \<open>map_of\<close> reads a
  key and \<open>AList.update\<close> is the assignment \<^verbatim>\<open>m[k] = v\<close> (it replaces the entry of an
  existing key and adds a missing one). The order of the list carries no meaning.
\<close>

datatype Value =
    VNull
  | VBool bool
  | VNum int
  | VString string
  | VList "Value list"
  | VMap "(string \<times> Value) list"

type_synonym Values = "(string \<times> Value) list"

text \<open>
  \<^verbatim>\<open>unstructured.SetNestedField\<close> and \<^verbatim>\<open>unstructured.SetNestedStringMap\<close> of
  k8s.io/apimachinery walk the tree along \<open>fields\<close>: a missing key gets a fresh map,
  an existing nested map is entered, and an existing value that is not a map stops the
  walk with an error (\<open>NotAMap\<close>, with the key it stopped at). An error can only
  arise before the first write, so a failed call leaves the tree as it was. Slicing
  \<^verbatim>\<open>fields[:len(fields)-1]\<close> of an empty path is out of range (\<open>EmptyFields\<close>).
  The copy \<^verbatim>\<open>SetNestedField\<close> makes of the value it stores is the value itself here.
\<close>

fun setNestedFieldNoCopy :: "Values \<Rightarrow> Value \<Rightarrow> string list \<Rightarrow> error + Values" where
  "setNestedFieldNoCopy obj v [] = Inl EmptyFields"
| "setNestedFieldNoCopy obj v [field] = Inr (AList.update field v obj)"
| "setNestedFieldNoCopy obj v (field # fields) =
     (case map_of obj field of
        Some (VMap valMap) \<Rightarrow>
          (case setNestedFieldNoCopy valMap v fields of
             Inl e \<Rightarrow> Inl e
           | Inr m \<Rightarrow> Inr (AList.update field (VMap m) obj))
      | Some _ \<Rightarrow> Inl (NotAMap field)
      | None \<Rightarrow>
          (case setNestedFieldNoCopy [] v fields of
             Inl e \<Rightarrow> Inl e
           | Inr m \<Rightarrow> Inr (AList.update field (VMap m) obj)))"

definition SetNestedField :: "Values \<Rightarrow> Value \<Rightarrow> string list \<Rightarrow> error + Values" where
  "SetNestedField obj v fields = setNestedFieldNoCopy obj v fields"

definition SetNestedStringMap ::
    "Values \<Rightarrow> (string \<times> string) list \<Rightarrow> string list \<Rightarrow> error + Values" where
  "SetNestedStringMap obj val fields =
     setNestedFieldNoCopy obj (VMap (map (\<lambda>kv. (fst kv, VString (snd kv))) val)) fields"

text \<open>
  The processor drops the error of every such call (\<^verbatim>\<open>_ = unstructured.SetNested...\<close>)
  and goes on with the map it passed, which the call has mutated in place when it
  succeeded.
\<close>

definition dropError :: "Values \<Rightarrow> error + Values \<Rightarrow> Values" where
  "dropError obj r = (case r of Inl e \<Rightarrow> obj | Inr m \<Rightarrow> m)"

subsection \<open>The typed Ingress (k8s.io/api/networking/v1)\<close>

record ServiceBackendPort =
  PortName :: string
  Number :: "32 word"

record IngressServiceBackend =
  Name :: string
  Port :: ServiceBackendPort

record TypedLocalObjectReference =
  RefAPIGroup :: "string option"
  RefKind :: string
  RefName :: string

record IngressBackend =
  Service :: "IngressServiceBackend option"
  Resource :: "TypedLocalObjectReference option"

record HTTPIngressPath =
  Path :: string
  PathType :: "string option"
  Backend :: IngressBackend

record HTTPIngressRuleValue =
  Paths :: "HTTPIngressPath list"

record IngressRuleValue =
  HTTP :: "HTTPIngressRuleValue option"

record IngressRule =
  Host :: string
  IngressRuleValue :: IngressRuleValue

record IngressTLS =
  Hosts :: "string list"
  SecretName :: string

record IngressSpec =
  IngressClassName :: "string option"
  DefaultBackend :: "IngressBackend option"
  TLS :: "IngressTLS list"
  Rules :: "IngressRule list"

text \<open>Of the typed Ingress the processor reads and rewrites the \<open>Spec\<close> only.\<close>

record Ingress =
  Spec :: IngressSpec

subsection \<open>The untyped document and the collaborators\<close>

record GroupVersionKind =
  Group :: string
  Version :: string
  Kind :: string

definition ingressGVC :: GroupVersionKind where
  "ingressGVC = \<lparr>Group = ''networking.k8s.io'', Version = ''v1'', Kind = ''Ingress''\<rparr>"

text \<open>
  An \<^verbatim>\<open>unstructured.Unstructured\<close> is read through its accessors
  \<^verbatim>\<open>GroupVersionKind()\<close>, \<^verbatim>\<open>GetName()\<close> and \<^verbatim>\<open>GetAnnotations()\<close>; the record
  holds what they return, and \<open>Object\<close> is the content handed to the typed converter.
  The annotation map is an association list with distinct keys, empty when the
  document has no annotations.
\<close>

record Unstructured =
  GVK :: GroupVersionKind
  GetName :: string
  GetAnnotations :: "(string \<times> string) list"
  Object :: Value

text \<open>
  \<^verbatim>\<open>helmify.AppMetadata\<close> is an interface implemented outside this file; the processor
  calls its methods \<open>TrimName\<close> and \<open>TemplatedName\<close>, both from strings to strings.
\<close>

record AppMetadata =
  TrimName :: "string \<Rightarrow> string"
  TemplatedName :: "string \<Rightarrow> string"

text \<open>
  The functions the processor calls in other packages are parameters of the model:
  \<^item> \<open>FromUnstructured\<close>: \<^verbatim>\<open>runtime.DefaultUnstructuredConverter.FromUnstructured\<close>,
    the typed conversion, which may fail;
  \<^item> \<open>ProcessObjMeta\<close>: \<^verbatim>\<open>processor.ProcessObjMeta\<close> called with the option
    \<^verbatim>\<open>WithAnnotations(av)\<close>; it gets the application metadata, the document and the
    annotation sink \<open>av\<close>, and returns the rendered metadata block together with the
    sink as it has left it, or an error;
  \<^item> \<open>ToLowerCamel\<close>: \<^verbatim>\<open>strcase.ToLowerCamel\<close>;
  \<^item> \<open>Marshal\<close>: \<^verbatim>\<open>yamlformat.Marshal\<close>, called on a map from keys to specs with an
    indentation.
  They read the document and the spec they are given and change neither; what the
  metadata processor writes goes to its sink.
\<close>

record Collaborators =
  FromUnstructured :: "Value \<Rightarrow> error + Ingress"
  ProcessObjMeta :: "AppMetadata \<Rightarrow> Unstructured \<Rightarrow> Values \<Rightarrow> error + (string \<times> Values)"
  ToLowerCamel :: "string \<Rightarrow> string"
  Marshal :: "(string \<times> IngressSpec) list \<Rightarrow> int \<Rightarrow> error + string"

text \<open>\<^verbatim>\<open>strings.TrimPrefix\<close> of the Go standard library.\<close>

definition TrimPrefix :: "string \<Rightarrow> string \<Rightarrow> string" where
  "TrimPrefix s pre = (if take (length pre) s = pre then drop (length pre) s else s)"

subsection \<open>The result\<close>

record ingressData =
  dataIf :: string
  dataMeta :: string
  dataSpec :: string
  dataEnd :: string

record ingressResult =
  name :: string
  data :: ingressData
  resValues :: Values

definition Filename :: "ingressResult \<Rightarrow> string" where
  "Filename r = name r"

definition Values :: "ingressResult \<Rightarrow> Values" where
  "Values r = resValues r"

text \<open>
  \<open>ingressTempl\<close> is the text \<^verbatim>\<open>{{ .If }}\n{{ .Meta }}\n{{ .Spec }}\n{{ .End }}\<close>:
  executing it writes the four fields, one line break after each of the first three.
\<close>

definition newline :: string where
  "newline = [CHR 0x0A]"

definition Write :: "ingressResult \<Rightarrow> string" where
  "Write r =
     dataIf (data r) @ newline @ dataMeta (data r) @ newline @
     dataSpec (data r) @ newline @ dataEnd (data r)"

subsection \<open>processIngressSpec\<close>

text \<open>
  The inner loop \<^verbatim>\<open>for j := range ...HTTP.Paths\<close> and the outer loop
  \<^verbatim>\<open>for i := range ing.Rules\<close>, each a fold over the indices that updates the element
  in place. The spec comes out of the typed conversion, which allocates every backend
  and service reference on its own, so no two of the pointers the loops follow share
  their target and the spec is a plain value.
\<close>

definition pathsLoop :: "AppMetadata \<Rightarrow> HTTPIngressPath list \<Rightarrow> HTTPIngressPath list" where
  "pathsLoop appMeta paths =
     fold (\<lambda>j ps.
        case Service (Backend (ps ! j)) of
          None \<Rightarrow> ps
        | Some s \<Rightarrow>
            ps[j := (ps ! j)\<lparr>Backend :=
                 (Backend (ps ! j))\<lparr>Service :=
                    Some (s\<lparr>Name := TemplatedName appMeta (Name s)\<rparr>)\<rparr>\<rparr>])
       [0..<length paths] paths"

definition rulesLoop :: "AppMetadata \<Rightarrow> IngressRule list \<Rightarrow> IngressRule list" where
  "rulesLoop appMeta rules =
     fold (\<lambda>i rs.
        case HTTP (IngressRuleValue (rs ! i)) of
          None \<Rightarrow> rs
        | Some h \<Rightarrow>
            rs[i := (rs ! i)\<lparr>IngressRuleValue :=
                 (IngressRuleValue (rs ! i))\<lparr>HTTP :=
                    Some (h\<lparr>Paths := pathsLoop appMeta (Paths h)\<rparr>)\<rparr>\<rparr>])
       [0..<length rules] rules"

definition processIngressSpec :: "AppMetadata \<Rightarrow> IngressSpec \<Rightarrow> IngressSpec" where
  "processIngressSpec appMeta ing =
     (let ing1 =
        (case DefaultBackend ing of
           None \<Rightarrow> ing
         | Some b \<Rightarrow>
             (case Service b of
                None \<Rightarrow> ing
              | Some s \<Rightarrow>
                  ing\<lparr>DefaultBackend :=
                    Some (b\<lparr>Service := Some (s\<lparr>Name := TemplatedName appMeta (Name s)\<rparr>)\<rparr>)\<rparr>))
      in ing1\<lparr>Rules := rulesLoop appMeta (Rules ing1)\<rparr>)"

subsection \<open>processIngressEnabled and processIngressClassName\<close>

definition processIngressEnabled :: "string \<Rightarrow> Ingress \<Rightarrow> Values \<Rightarrow> Values" where
  "processIngressEnabled shortNameCamel ing vals =
     dropError vals (SetNestedField vals (VBool True) [shortNameCamel, ''ingress'', ''enabled''])"

definition classNameTemplate :: "string \<Rightarrow> string" where
  "classNameTemplate shortNameCamel = ''{{.Values.'' @ shortNameCamel @ ''.ingress.className}}''"

text \<open>
  The function returns its error result, the spec with its class field overwritten,
  and the values tree. \<open>Process\<close> calls it with the address of the spec and with a map
  it has just made, so neither is nil.
\<close>

definition processIngressClassName ::
    "string \<Rightarrow> IngressSpec \<Rightarrow> Values \<Rightarrow> error option \<times> IngressSpec \<times> Values" where
  "processIngressClassName shortNameCamel ingSpec vals =
     (let className = (case IngressClassName ingSpec of None \<Rightarrow> [] | Some c \<Rightarrow> c);
          vals1 = dropError vals
            (SetNestedField vals (VString className) [shortNameCamel, ''ingress'', ''className''])
      in (None, ingSpec\<lparr>IngressClassName := Some (classNameTemplate shortNameCamel)\<rparr>, vals1))"

subsection \<open>Process\<close>

definition ifOpen :: "string \<Rightarrow> string" where
  "ifOpen shortNameCamel = ''{{- if .Values.'' @ shortNameCamel @ ''.ingress.enabled }}''"

text \<open>
  The result is the triple \<^verbatim>\<open>(bool, helmify.Template, error)\<close> of the Go method. The
  returns of the source appear in its order.
\<close>

definition Process ::
    "Collaborators \<Rightarrow> AppMetadata \<Rightarrow> Unstructured \<Rightarrow> bool \<times> ingressResult option \<times> error option" where
  "Process env appMeta obj =
     (if GVK obj \<noteq> ingressGVC then (False, None, None)
      else
        case FromUnstructured env (Object obj) of
          Inl err \<Rightarrow> (True, None, Some (Wrapped err ''unable to cast to ingress''))
        | Inr ing \<Rightarrow>
            (case ProcessObjMeta env appMeta obj [] of
               Inl err \<Rightarrow> (True, None, Some err)
             | Inr (meta, av) \<Rightarrow>
                 (let nm = TrimName appMeta (GetName obj);
                      shortName = TrimPrefix nm ''controller-manager-'';
                      shortNameCamel = ToLowerCamel env shortName;
                      spec1 = processIngressSpec appMeta (Spec ing);
                      vals0 = [];
                      vals1 = processIngressEnabled shortNameCamel ing vals0
                  in case processIngressClassName shortNameCamel spec1 vals1 of
                       (Some err, spec2, vals2) \<Rightarrow> (False, None, Some err)
                     | (None, spec2, vals2) \<Rightarrow>
                         (case Marshal env [(''spec'', spec2)] 0 of
                            Inl err \<Rightarrow> (True, None, Some err)
                          | Inr spec \<Rightarrow>
                              (let a = GetAnnotations obj;
                                   vals3 = dropError vals2
                                     (SetNestedStringMap vals2 a
                                        [shortNameCamel, ''ingress'', ''annotations''])
                               in (True,
                                   Some \<lparr>name = nm @ ''.yaml'',
                                         data = \<lparr>dataIf = ifOpen shortNameCamel,
                                                 dataMeta = meta,
                                                 dataSpec = spec,
                                                 dataEnd = ''{{- end }}''\<rparr>,
                                         resValues = vals3\<rparr>,
                                   None))))))"

subsection \<open>Process with its store written out\<close>

text \<open>
  A callee that is handed a pointer or a map can write through it. The converter gets
  the content map of the document, the metadata processor gets the document and the
  sink. \<open>Touches\<close> says what these two calls leave of the document, and what a failed
  metadata processor leaves of the sink (its error result carries no sink). The other
  callees get strings or the typed spec and cannot reach the document.
\<close>

record Touches =
  convertLeaves :: "Unstructured \<Rightarrow> Unstructured"
  metaLeaves :: "AppMetadata \<Rightarrow> Unstructured \<Rightarrow> Unstructured"
  failedMetaSink :: "AppMetadata \<Rightarrow> Unstructured \<Rightarrow> Values"

text \<open>
  The store of one invocation: the document behind \<^verbatim>\<open>obj\<close>, the sink \<^verbatim>\<open>av\<close> and the
  tree \<^verbatim>\<open>values\<close>; the two trees are \<open>None\<close> until the lines that make them
  (48 and 59) have run.
\<close>

record Store =
  document :: Unstructured
  sink :: "Values option"
  tree :: "Values option"

text \<open>
  \<open>ProcessRun\<close> is the method once more, statement by statement, returning next to its
  triple the store as the return leaves it. A read of the document after a call sees
  what the call has left: the metadata processor gets the document the converter has
  left, and \<^verbatim>\<open>GetName\<close> and \<^verbatim>\<open>GetAnnotations\<close> read the document the metadata
  processor has left. With callees that leave the document alone the triple is that
  of \<open>Process\<close> (lemma \<open>ProcessRun_result\<close>).
\<close>

definition ProcessRun ::
    "Collaborators \<Rightarrow> Touches \<Rightarrow> AppMetadata \<Rightarrow> Unstructured \<Rightarrow>
       (bool \<times> ingressResult option \<times> error option) \<times> Store" where
  "ProcessRun env touch appMeta obj =
     (if GVK obj \<noteq> ingressGVC
      then ((False, None, None), \<lparr>document = obj, sink = None, tree = None\<rparr>)
      else
        (let obj1 = convertLeaves touch obj
         in case FromUnstructured env (Object obj) of
           Inl err \<Rightarrow>
             ((True, None, Some (Wrapped err ''unable to cast to ingress'')),
              \<lparr>document = obj1, sink = None, tree = None\<rparr>)
         | Inr ing \<Rightarrow>
             (let obj2 = metaLeaves touch appMeta obj1
              in case ProcessObjMeta env appMeta obj1 [] of
                Inl err \<Rightarrow>
                  ((True, None, Some err),
                   \<lparr>document = obj2, sink = Some (failedMetaSink touch appMeta obj1), tree = None\<rparr>)
              | Inr (meta, av) \<Rightarrow>
                  (let nm = TrimName appMeta (GetName obj2);
                       shortName = TrimPrefix nm ''controller-manager-'';
                       shortNameCamel = ToLowerCamel env shortName;
                       spec1 = processIngressSpec appMeta (Spec ing);
                       vals0 = [];
                       vals1 = processIngressEnabled shortNameCamel ing vals0
                   in case processIngressClassName shortNameCamel spec1 vals1 of
                        (Some err, spec2, vals2) \<Rightarrow>
                          ((False, None, Some err),
                           \<lparr>document = obj2, sink = Some av, tree = Some vals2\<rparr>)
                      | (None, spec2, vals2) \<Rightarrow>
                          (case Marshal env [(''spec'', spec2)] 0 of
                             Inl err \<Rightarrow>
                               ((True, None, Some err),
                                \<lparr>document = obj2, sink = Some av, tree = Some vals2\<rparr>)
                           | Inr spec \<Rightarrow>
                               (let a = GetAnnotations obj2;
                                    vals3 = dropError vals2
                                      (SetNestedStringMap vals2 a
                                         [shortNameCamel, ''ingress'', ''annotations''])
                                in ((True,
                                     Some \<lparr>name = nm @ ''.yaml'',
                                           data = \<lparr>dataIf = ifOpen shortNameCamel,
                                                   dataMeta = meta,
                                                   dataSpec = spec,
                                                   dataEnd = ''{{- end }}''\<rparr>,
                                           resValues = vals3\<rparr>,
                                     None),
                                    \<lparr>document = obj2, sink = Some av, tree = Some vals3\<rparr>)))))))"

subsection \<open>Reading a values tree\<close>

text \<open>
  \<open>lookupPath\<close> follows a path of keys through nested maps; the empty path is the
  tree itself. \<open>valuePaths\<close> lists the path of every node of a tree, the root's empty
  path first.
\<close>

fun lookupPath :: "Value \<Rightarrow> string list \<Rightarrow> Value option" where
  "lookupPath v [] = Some v"
| "lookupPath (VMap m) (f # fs) =
     (case map_of m f of None \<Rightarrow> None | Some v \<Rightarrow> lookupPath v fs)"
| "lookupPath _ (f # fs) = None"

fun valuePaths :: "Value \<Rightarrow> string list list" where
  "valuePaths (VMap m) =
     [] # concat (map (\<lambda>kv. map ((#) (fst kv)) (valuePaths (snd kv))) m)"
| "valuePaths _ = [[]]"

text \<open>
  Modelled from the spec: the dispatcher's merge of the values trees of independent
  invocations, a deep union, is not part of this file. Two maps under the same key are
  merged key by key; where the two trees disagree otherwise, the left one stays.
\<close>

fun mergeValue :: "Value \<Rightarrow> Value \<Rightarrow> Value"
  and deepUnion :: "Values \<Rightarrow> Values \<Rightarrow> Values" where
  "mergeValue (VMap a) (VMap b) = VMap (deepUnion a b)"
| "mergeValue a b = a"
| "deepUnion a [] = a"
| "deepUnion a ((k, v) # b) =
     deepUnion (case map_of a k of
                  None \<Rightarrow> AList.update k v a
                | Some w \<Rightarrow> AList.update k (mergeValue w v) a) b"




subsection \<open>The specification's view of naming and rewriting\<close>

text \<open>
  The chain the specification calls \<open>deriveConfigKey\<close>: trim the application prefix,
  strip \<^verbatim>\<open>controller-manager-\<close>, convert to lower camel case.
\<close>

definition deriveConfigKey :: "Collaborators \<Rightarrow> AppMetadata \<Rightarrow> string \<Rightarrow> string" where
  "deriveConfigKey env appMeta rawName =
     ToLowerCamel env (TrimPrefix (TrimName appMeta rawName) ''controller-manager-'')"

text \<open>
  The rewriting the specification asks for, written without loops: every service
  reference that is present gets its name templated, everything else stays.
\<close>

definition rewriteBackend :: "(string \<Rightarrow> string) \<Rightarrow> IngressBackend \<Rightarrow> IngressBackend" where
  "rewriteBackend tn b =
     (case Service b of
        None \<Rightarrow> b
      | Some s \<Rightarrow> b\<lparr>Service := Some (s\<lparr>Name := tn (Name s)\<rparr>)\<rparr>)"

definition rewritePath :: "(string \<Rightarrow> string) \<Rightarrow> HTTPIngressPath \<Rightarrow> HTTPIngressPath" where
  "rewritePath tn p = p\<lparr>Backend := rewriteBackend tn (Backend p)\<rparr>"

definition rewriteRule :: "(string \<Rightarrow> string) \<Rightarrow> IngressRule \<Rightarrow> IngressRule" where
  "rewriteRule tn r =
     (case HTTP (IngressRuleValue r) of
        None \<Rightarrow> r
      | Some h \<Rightarrow>
          r\<lparr>IngressRuleValue :=
            (IngressRuleValue r)\<lparr>HTTP :=
              Some (h\<lparr>Paths := map (rewritePath tn) (Paths h)\<rparr>)\<rparr>\<rparr>)"

subsection \<open>Concrete documents and collaborators\<close>

text \<open>
  The document of the specification's round-trip scenario: an Ingress named
  \<^verbatim>\<open>controller-manager-app-ingress\<close> of class \<^verbatim>\<open>nginx\<close> with one rule and one path to
  the service \<^verbatim>\<open>app-svc\<close>.
\<close>

definition appSvcPath :: HTTPIngressPath where
  "appSvcPath =
     \<lparr>Path = ''/'', PathType = Some ''Prefix'',
      Backend = \<lparr>Service = Some \<lparr>Name = ''app-svc'', Port = \<lparr>PortName = [], Number = 80\<rparr>\<rparr>,
                 Resource = None\<rparr>\<rparr>"

definition appIngressSpec :: IngressSpec where
  "appIngressSpec =
     \<lparr>IngressClassName = Some ''nginx'', DefaultBackend = None, TLS = [],
      Rules = [\<lparr>Host = ''app.example.com'',
                IngressRuleValue = \<lparr>HTTP = Some \<lparr>Paths = [appSvcPath]\<rparr>\<rparr>\<rparr>]\<rparr>"

definition appIngressContent :: Value where
  "appIngressContent =
     VMap [(''apiVersion'', VString ''networking.k8s.io/v1''), (''kind'', VString ''Ingress'')]"

definition appIngressDoc :: Unstructured where
  "appIngressDoc =
     \<lparr>GVK = ingressGVC, GetName = ''controller-manager-app-ingress'',
      GetAnnotations = [(''owner'', ''team-a'')], Object = appIngressContent\<rparr>"

text \<open>A second spec: a default backend, a rule without HTTP section, a rule without paths.\<close>

definition fallbackSpec :: IngressSpec where
  "fallbackSpec =
     \<lparr>IngressClassName = None,
      DefaultBackend = Some \<lparr>Service = Some \<lparr>Name = ''fallback'', Port = \<lparr>PortName = ''http'', Number = 0\<rparr>\<rparr>,
                             Resource = None\<rparr>,
      TLS = [],
      Rules = [\<lparr>Host = ''a.example.com'', IngressRuleValue = \<lparr>HTTP = None\<rparr>\<rparr>,
               \<lparr>Host = ''b.example.com'', IngressRuleValue = \<lparr>HTTP = Some \<lparr>Paths = []\<rparr>\<rparr>\<rparr>]\<rparr>"

definition emptySpec :: IngressSpec where
  "emptySpec = \<lparr>IngressClassName = None, DefaultBackend = None, TLS = [], Rules = []\<rparr>"

text \<open>A document of another kind.\<close>

definition serviceDoc :: Unstructured where
  "serviceDoc =
     \<lparr>GVK = \<lparr>Group = [], Version = ''v1'', Kind = ''Service''\<rparr>, GetName = ''app-svc'',
      GetAnnotations = [], Object = VMap [(''kind'', VString ''Service'')]\<rparr>"

text \<open>
  Two instances of the application metadata. \<open>plainMeta\<close> has no prefix to trim;
  \<open>prefixMeta\<close> trims the prefix \<^verbatim>\<open>controller-manager-\<close>. Both template a name by
  putting the release name in front.
\<close>

definition plainMeta :: AppMetadata where
  "plainMeta = \<lparr>TrimName = (\<lambda>s. s), TemplatedName = (\<lambda>s. ''{{ .Release.Name }}-'' @ s)\<rparr>"

definition prefixMeta :: AppMetadata where
  "prefixMeta =
     \<lparr>TrimName = (\<lambda>s. TrimPrefix s ''controller-manager-''),
      TemplatedName = (\<lambda>s. ''{{ .Release.Name }}-'' @ s)\<rparr>"

text \<open>
  A lower-camel-case conversion for names made of lower-case words joined by \<^verbatim>\<open>-\<close>:
  the separator is dropped and the letter after it is raised.
\<close>

definition upperByte :: "char \<Rightarrow> char" where
  "upperByte c =
     (case map_of (zip ''abcdefghijklmnopqrstuvwxyz'' ''ABCDEFGHIJKLMNOPQRSTUVWXYZ'') c of
        None \<Rightarrow> c
      | Some u \<Rightarrow> u)"

fun camelFrom :: "bool \<Rightarrow> string \<Rightarrow> string" where
  "camelFrom capNext [] = []"
| "camelFrom capNext (c # cs) =
     (if c = CHR ''-'' then camelFrom True cs
      else (if capNext then upperByte c else c) # camelFrom False cs)"

text \<open>
  Collaborators for the concrete runs. The converter knows the content of
  \<open>appIngressDoc\<close>; the metadata processor of \<open>quietEnv\<close> leaves its sink alone, the one
  of \<open>sinkEnv\<close> writes the document's annotations into the sink under \<^verbatim>\<open>annotations\<close>;
  the serializer prints the class field of the spec it is given.
\<close>

definition quietEnv :: Collaborators where
  "quietEnv =
     \<lparr>FromUnstructured =
        (\<lambda>v. if v = appIngressContent then Inr \<lparr>Spec = appIngressSpec\<rparr>
              else Inl (Errorf ''unexpected content'')),
      ProcessObjMeta = (\<lambda>appMeta obj av. Inr (''metadata:'', av)),
      ToLowerCamel = camelFrom False,
      Marshal =
        (\<lambda>m indent. case map_of m ''spec'' of
             None \<Rightarrow> Inl (Errorf ''no spec'')
           | Some sp \<Rightarrow>
               Inr (''spec: '' @ (case IngressClassName sp of None \<Rightarrow> [] | Some c \<Rightarrow> c)))\<rparr>"


text \<open>
  Callees that do write through what they are handed: this converter clears the
  content of the document, this metadata processor drops its annotations.
\<close>

definition scribbling :: Touches where
  "scribbling =
     \<lparr>convertLeaves = (\<lambda>d. d\<lparr>Object := VNull\<rparr>),
      metaLeaves = (\<lambda>appMeta d. d\<lparr>GetAnnotations := []\<rparr>),
      failedMetaSink = (\<lambda>appMeta d. [])\<rparr>"

text \<open>
  What the scenario's document is turned into, with the prefix trimmed by the
  application metadata (\<open>trimmedResult\<close>) and without (\<open>untrimmedResult\<close>).
\<close>

definition trimmedResult :: ingressResult where
  "trimmedResult =
     \<lparr>name = ''app-ingress.yaml'',
      data = \<lparr>dataIf = ''{{- if .Values.appIngress.ingress.enabled }}'',
              dataMeta = ''metadata:'',
              dataSpec = ''spec: {{.Values.appIngress.ingress.className}}'',
              dataEnd = ''{{- end }}''\<rparr>,
      resValues =
        [(''appIngress'',
          VMap [(''ingress'',
            VMap [(''enabled'', VBool True), (''className'', VString ''nginx''),
                  (''annotations'', VMap [(''owner'', VString ''team-a'')])])])]\<rparr>"

definition untrimmedResult :: ingressResult where
  "untrimmedResult = trimmedResult\<lparr>name := ''controller-manager-app-ingress.yaml''\<rparr>"

subsection \<open>The tree the three writes build\<close>

text \<open>
  Starting from the empty tree, the writes of \<open>enabled\<close>, \<open>className\<close> and
  \<open>annotations\<close> under the key \<open>k\<close> leave this tree.
\<close>

definition builtValues :: "string \<Rightarrow> string option \<Rightarrow> (string \<times> string) list \<Rightarrow> Values" where
  "builtValues k cls a =
     [(k, VMap [(''ingress'', VMap [(''enabled'', VBool True),
        (''className'', VString (case cls of None \<Rightarrow> [] | Some c \<Rightarrow> c)),
        (''annotations'', VMap (map (\<lambda>kv. (fst kv, VString (snd kv))) a))])])]"

section \<open>Properties\<close>

subsection \<open>The index loops are maps\<close>

lemma fold_index_update:
  assumes body: "\<And>i ys. i < length ys \<Longrightarrow> body i ys = ys[i := f (ys ! i)]"
  shows "n \<le> length xs \<Longrightarrow> fold body [0..<n] xs = map f (take n xs) @ drop n xs"
proof (induction n)
  case 0
  then show ?case by simp
next
  case (Suc n)
  then have n: "n < length xs" by simp
  let ?ys = "map f (take n xs) @ drop n xs"
  have len: "length ?ys = length xs" using n by simp
  have nth: "?ys ! n = xs ! n" using n by (simp add: nth_append)
  have "fold body [0..<Suc n] xs = body n ?ys" using Suc by simp
  also have "\<dots> = ?ys[n := f (xs ! n)]" using body [of n ?ys] len n nth by simp
  also have "\<dots> = map f (take n xs) @ (drop n xs)[0 := f (xs ! n)]"
    using n by (simp add: list_update_append)
  also have "(drop n xs)[0 := f (xs ! n)] = f (xs ! n) # drop (Suc n) xs"
    using n by (simp add: Cons_nth_drop_Suc [symmetric])
  also have "map f (take n xs) @ f (xs ! n) # drop (Suc n) xs = map f (take (Suc n) xs) @ drop (Suc n) xs"
    using n by (simp add: take_Suc_conv_app_nth)
  finally show ?case .
qed

lemma pathsLoop_map: "pathsLoop appMeta paths = map (rewritePath (TemplatedName appMeta)) paths"
proof -
  have "fold (\<lambda>j ps.
        case Service (Backend (ps ! j)) of
          None \<Rightarrow> ps
        | Some s \<Rightarrow>
            ps[j := (ps ! j)\<lparr>Backend :=
                 (Backend (ps ! j))\<lparr>Service :=
                    Some (s\<lparr>Name := TemplatedName appMeta (Name s)\<rparr>)\<rparr>\<rparr>])
       [0..<length paths] paths
     = map (rewritePath (TemplatedName appMeta)) (take (length paths) paths) @ drop (length paths) paths"
    by (rule fold_index_update)
       (auto simp: rewritePath_def rewriteBackend_def split: option.splits)
  then show ?thesis by (simp add: pathsLoop_def)
qed

lemma rulesLoop_map: "rulesLoop appMeta rules = map (rewriteRule (TemplatedName appMeta)) rules"
proof -
  have "fold (\<lambda>i rs.
        case HTTP (IngressRuleValue (rs ! i)) of
          None \<Rightarrow> rs
        | Some h \<Rightarrow>
            rs[i := (rs ! i)\<lparr>IngressRuleValue :=
                 (IngressRuleValue (rs ! i))\<lparr>HTTP :=
                    Some (h\<lparr>Paths := pathsLoop appMeta (Paths h)\<rparr>)\<rparr>\<rparr>])
       [0..<length rules] rules
     = map (rewriteRule (TemplatedName appMeta)) (take (length rules) rules) @ drop (length rules) rules"
    by (rule fold_index_update)
       (auto simp: rewriteRule_def pathsLoop_map split: option.splits)
  then show ?thesis by (simp add: rulesLoop_def)
qed

lemma processIngressSpec_eq:
  "processIngressSpec appMeta ing =
     ing\<lparr>DefaultBackend := map_option (rewriteBackend (TemplatedName appMeta)) (DefaultBackend ing),
         Rules := map (rewriteRule (TemplatedName appMeta)) (Rules ing)\<rparr>"
  by (simp add: processIngressSpec_def rulesLoop_map rewriteBackend_def Let_def
           split: option.splits)

lemma processIngressSpec_class:
  "IngressClassName (processIngressSpec appMeta ing) = IngressClassName ing"
  by (simp add: processIngressSpec_eq)

subsection \<open>The values tree and the shape of a run\<close>

lemma enabled_tree:
  "processIngressEnabled k ing [] = [(k, VMap [(''ingress'', VMap [(''enabled'', VBool True)])])]"
  by (simp add: processIngressEnabled_def SetNestedField_def dropError_def)

lemma className_tree:
  "processIngressClassName k sp [(k, VMap [(''ingress'', VMap [(''enabled'', VBool True)])])] =
     (None, sp\<lparr>IngressClassName := Some (classNameTemplate k)\<rparr>,
      [(k, VMap [(''ingress'', VMap [(''enabled'', VBool True),
          (''className'', VString (case IngressClassName sp of None \<Rightarrow> [] | Some c \<Rightarrow> c))])])])"
  by (simp add: processIngressClassName_def SetNestedField_def dropError_def)

lemma annotations_tree:
  "dropError [(k, VMap [(''ingress'', VMap [(''enabled'', VBool True), (''className'', VString c)])])]
     (SetNestedStringMap [(k, VMap [(''ingress'', VMap [(''enabled'', VBool True), (''className'', VString c)])])]
        a [k, ''ingress'', ''annotations'']) =
   [(k, VMap [(''ingress'', VMap [(''enabled'', VBool True), (''className'', VString c),
        (''annotations'', VMap (map (\<lambda>kv. (fst kv, VString (snd kv))) a))])])]"
  by (simp add: SetNestedStringMap_def dropError_def)

lemma Process_matching:
  assumes "GVK obj = ingressGVC"
  shows "Process env appMeta obj =
     (case FromUnstructured env (Object obj) of
        Inl err \<Rightarrow> (True, None, Some (Wrapped err ''unable to cast to ingress''))
      | Inr ing \<Rightarrow>
          (case ProcessObjMeta env appMeta obj [] of
             Inl err \<Rightarrow> (True, None, Some err)
           | Inr (meta, av) \<Rightarrow>
               (case Marshal env
                       [(''spec'', (processIngressSpec appMeta (Spec ing))
                            \<lparr>IngressClassName :=
                               Some (classNameTemplate (deriveConfigKey env appMeta (GetName obj)))\<rparr>)] 0 of
                  Inl err \<Rightarrow> (True, None, Some err)
                | Inr spec \<Rightarrow>
                    (True,
                     Some \<lparr>name = TrimName appMeta (GetName obj) @ ''.yaml'',
                           data = \<lparr>dataIf = ifOpen (deriveConfigKey env appMeta (GetName obj)),
                                   dataMeta = meta, dataSpec = spec, dataEnd = ''{{- end }}''\<rparr>,
                           resValues = builtValues (deriveConfigKey env appMeta (GetName obj))
                                         (IngressClassName (Spec ing)) (GetAnnotations obj)\<rparr>,
                     None))))"
  using assms
  by (simp add: Process_def Let_def deriveConfigKey_def enabled_tree className_tree
        annotations_tree processIngressSpec_class builtValues_def
      split: sum.splits prod.splits)

lemma Process_success:
  assumes "Process env appMeta obj = (True, Some r, None)"
  shows "\<exists>ing meta av spec.
           GVK obj = ingressGVC \<and>
           FromUnstructured env (Object obj) = Inr ing \<and>
           ProcessObjMeta env appMeta obj [] = Inr (meta, av) \<and>
           Marshal env
             [(''spec'', (processIngressSpec appMeta (Spec ing))
                  \<lparr>IngressClassName :=
                     Some (classNameTemplate (deriveConfigKey env appMeta (GetName obj)))\<rparr>)] 0
             = Inr spec \<and>
           r = \<lparr>name = TrimName appMeta (GetName obj) @ ''.yaml'',
                 data = \<lparr>dataIf = ifOpen (deriveConfigKey env appMeta (GetName obj)),
                         dataMeta = meta, dataSpec = spec, dataEnd = ''{{- end }}''\<rparr>,
                 resValues = builtValues (deriveConfigKey env appMeta (GetName obj))
                               (IngressClassName (Spec ing)) (GetAnnotations obj)\<rparr>"
proof -
  have gvk: "GVK obj = ingressGVC"
    using assms by (auto simp: Process_def split: if_splits)
  show ?thesis
    using assms gvk unfolding Process_matching [OF gvk]
    by (auto split: sum.splits prod.splits)
qed

subsection \<open>Roots, paths and the union of two trees\<close>

lemma builtValues_roots: "map fst (builtValues k cls a) = [k]"
  by (simp add: builtValues_def)

lemma builtValues_paths:
  "p \<in> set (valuePaths (VMap (builtValues k cls a))) \<Longrightarrow> p \<noteq> [] \<Longrightarrow> hd p = k"
  by (auto simp: builtValues_def)

lemma lookup_single_root:
  "lookupPath (VMap [(k, t)]) (f # fs) = (if f = k then lookupPath t fs else None)"
  by simp

lemma deepUnion_distinct_roots:
  "k1 \<noteq> k2 \<Longrightarrow> deepUnion [(k1, t1)] [(k2, t2)] = [(k1, t1), (k2, t2)]"
  by simp

lemma union_lookup:
  assumes "k1 \<noteq> k2" and "p \<noteq> []"
  shows "lookupPath (VMap (deepUnion (builtValues k1 c1 a1) (builtValues k2 c2 a2))) p = Some v \<longleftrightarrow>
         lookupPath (VMap (builtValues k1 c1 a1)) p = Some v \<or>
         lookupPath (VMap (builtValues k2 c2 a2)) p = Some v"
proof -
  obtain f fs where p: "p = f # fs" using assms(2) by (cases p) auto
  obtain t1 where b1: "builtValues k1 c1 a1 = [(k1, t1)]" by (simp add: builtValues_def)
  obtain t2 where b2: "builtValues k2 c2 a2 = [(k2, t2)]" by (simp add: builtValues_def)
  show ?thesis
    unfolding b1 b2 p deepUnion_distinct_roots [OF assms(1)]
    using assms(1) by auto
qed

subsection \<open>Concrete runs\<close>

lemma camel_app_ingress: "camelFrom False ''app-ingress'' = ''appIngress''"
  by (simp add: upperByte_def)

lemma trim_app_ingress:
  "TrimPrefix ''controller-manager-app-ingress'' ''controller-manager-'' = ''app-ingress''"
  "TrimPrefix ''app-ingress'' ''controller-manager-'' = ''app-ingress''"
  by (simp_all add: TrimPrefix_def)

lemma key_prefix: "deriveConfigKey quietEnv prefixMeta ''controller-manager-app-ingress'' = ''appIngress''"
  by (simp add: deriveConfigKey_def quietEnv_def prefixMeta_def trim_app_ingress upperByte_def)

lemma key_plain: "deriveConfigKey quietEnv plainMeta ''controller-manager-app-ingress'' = ''appIngress''"
  by (simp add: deriveConfigKey_def quietEnv_def plainMeta_def trim_app_ingress upperByte_def)


lemma run_prefix:
  "Process quietEnv prefixMeta appIngressDoc =
     (True, Some trimmedResult, None)"
proof -
  have g: "GVK appIngressDoc = ingressGVC" by (simp add: appIngressDoc_def)
  have n: "GetName appIngressDoc = ''controller-manager-app-ingress''" by (simp add: appIngressDoc_def)
  show ?thesis
    unfolding Process_matching [OF g] n key_prefix
    by (simp add: appIngressDoc_def quietEnv_def prefixMeta_def appIngressSpec_def
          trim_app_ingress classNameTemplate_def ifOpen_def builtValues_def
          trimmedResult_def untrimmedResult_def)
qed

lemma run_plain:
  "Process quietEnv plainMeta appIngressDoc =
     (True, Some untrimmedResult, None)"
proof -
  have g: "GVK appIngressDoc = ingressGVC" by (simp add: appIngressDoc_def)
  have n: "GetName appIngressDoc = ''controller-manager-app-ingress''" by (simp add: appIngressDoc_def)
  show ?thesis
    unfolding Process_matching [OF g] n key_plain
    by (simp add: appIngressDoc_def quietEnv_def plainMeta_def appIngressSpec_def
          classNameTemplate_def ifOpen_def builtValues_def
          trimmedResult_def untrimmedResult_def)
qed



lemma convert_app: "FromUnstructured quietEnv (Object appIngressDoc) = Inr \<lparr>Spec = appIngressSpec\<rparr>"
  by (simp add: quietEnv_def appIngressDoc_def)

lemma key_prefix_doc:
  "ToLowerCamel quietEnv
     (TrimPrefix (TrimName prefixMeta (GetName appIngressDoc)) ''controller-manager-'') = ''appIngress''"
  using key_prefix by (simp add: deriveConfigKey_def appIngressDoc_def)

lemma run_web:
  "Process quietEnv prefixMeta (appIngressDoc\<lparr>GetName := ''web''\<rparr>) =
     (True,
      Some (trimmedResult\<lparr>name := ''web.yaml'',
              data := (data trimmedResult)\<lparr>dataIf := ''{{- if .Values.web.ingress.enabled }}'',
                        dataSpec := ''spec: {{.Values.web.ingress.className}}''\<rparr>,
              resValues := builtValues ''web'' (Some ''nginx'') [(''owner'', ''team-a'')]\<rparr>),
      None)"
proof -
  let ?doc = "appIngressDoc\<lparr>GetName := ''web''\<rparr>"
  have g: "GVK ?doc = ingressGVC" by (simp add: appIngressDoc_def)
  have n: "GetName ?doc = ''web''" by simp
  have k: "deriveConfigKey quietEnv prefixMeta ''web'' = ''web''"
    by (simp add: deriveConfigKey_def quietEnv_def prefixMeta_def TrimPrefix_def)
  show ?thesis
    unfolding Process_matching [OF g] n k
    by (simp add: appIngressDoc_def quietEnv_def prefixMeta_def appIngressSpec_def
          TrimPrefix_def classNameTemplate_def ifOpen_def trimmedResult_def)
qed

lemma key_plain_doc:
  "ToLowerCamel quietEnv
     (TrimPrefix (TrimName plainMeta (GetName appIngressDoc)) ''controller-manager-'') = ''appIngress''"
  using key_plain by (simp add: deriveConfigKey_def appIngressDoc_def)

lemma run_no_class:
  "Process (quietEnv\<lparr>FromUnstructured := (\<lambda>v. Inr \<lparr>Spec = fallbackSpec\<rparr>)\<rparr>) prefixMeta appIngressDoc =
     (True,
      Some (trimmedResult\<lparr>resValues := builtValues ''appIngress'' None [(''owner'', ''team-a'')]\<rparr>),
      None)"
proof -
  let ?env = "quietEnv\<lparr>FromUnstructured := (\<lambda>v. Inr \<lparr>Spec = fallbackSpec\<rparr>)\<rparr>"
  have g: "GVK appIngressDoc = ingressGVC" by (simp add: appIngressDoc_def)
  have n: "GetName appIngressDoc = ''controller-manager-app-ingress''" by (simp add: appIngressDoc_def)
  have k: "deriveConfigKey ?env prefixMeta ''controller-manager-app-ingress'' = ''appIngress''"
    using key_prefix by (simp add: deriveConfigKey_def)
  show ?thesis
    unfolding Process_matching [OF g] n k
    by (simp add: appIngressDoc_def quietEnv_def prefixMeta_def fallbackSpec_def
          trim_app_ingress classNameTemplate_def ifOpen_def trimmedResult_def)
qed

subsection \<open>The store and the sink\<close>

lemma ProcessRun_result:
  assumes "convertLeaves touch obj = obj" and "metaLeaves touch appMeta obj = obj"
  shows "fst (ProcessRun env touch appMeta obj) = Process env appMeta obj"
  using assms
  by (simp add: ProcessRun_def Process_def Let_def split: sum.splits prod.splits option.splits)

lemma run_scribbling:
  "ProcessRun quietEnv scribbling prefixMeta appIngressDoc =
     ((True,
       Some (trimmedResult\<lparr>resValues := builtValues ''appIngress'' (Some ''nginx'') []\<rparr>),
       None),
      \<lparr>document = appIngressDoc\<lparr>GetAnnotations := [], Object := VNull\<rparr>,
       sink = Some [],
       tree = Some (builtValues ''appIngress'' (Some ''nginx'') [])\<rparr>)"
  by (simp add: ProcessRun_def Let_def scribbling_def appIngressDoc_def quietEnv_def
        prefixMeta_def appIngressSpec_def trim_app_ingress upperByte_def
        processIngressSpec_class enabled_tree className_tree annotations_tree
        classNameTemplate_def ifOpen_def trimmedResult_def builtValues_def)



section \<open>The claims\<close>

subsection \<open>Documents of another kind\<close>

text \<open>
  C6. For a document whose group/version/kind is not that of the Ingress rule,
  \<open>Process\<close> returns not-applicable, distinct from any error: \<open>False\<close>, no template
  and a nil error. The invocation has no side effect: whatever the converter and the
  metadata processor would do to a document they are handed, the document is left
  exactly as it was, and neither the annotation sink nor the values tree has been
  made, let alone written. On a matching document the same callees do leave their
  marks in the store (lemma \<open>run_scribbling\<close>).
\<close>

theorem C6_not_applicable:
  "GVK obj \<noteq> ingressGVC \<Longrightarrow>
     Process env appMeta obj = (False, None, None) \<and>
     ProcessRun env touch appMeta obj =
       ((False, None, None), \<lparr>document = obj, sink = None, tree = None\<rparr>)"
  by (simp add: Process_def ProcessRun_def)

theorem C6_not_applicable_witness:
  "GVK serviceDoc \<noteq> ingressGVC \<and>
   Process quietEnv plainMeta serviceDoc = (False, None, None) \<and>
   ProcessRun quietEnv scribbling plainMeta serviceDoc =
     ((False, None, None), \<lparr>document = serviceDoc, sink = None, tree = None\<rparr>)"
proof -
  have h: "GVK serviceDoc \<noteq> ingressGVC"
    by (simp add: serviceDoc_def ingressGVC_def)
  show ?thesis using h C6_not_applicable [OF h, of quietEnv plainMeta scribbling] by simp
qed

subsection \<open>The error branch after processIngressClassName\<close>

text \<open>
  C10. \<open>processIngressClassName\<close> returns a nil error on every input. The branch of
  \<open>Process\<close> that would return \<open>False\<close> together with an error is therefore never
  taken: no run of \<open>Process\<close> returns \<open>False\<close> with an error, and a document whose
  group/version/kind matches always gets \<open>True\<close>.
\<close>

theorem C10_class_name_never_fails:
  "fst (processIngressClassName k sp vals) = None \<and>
   (GVK obj = ingressGVC \<longrightarrow> fst (Process env appMeta obj) = True) \<and>
   (\<forall>t e. Process env appMeta obj \<noteq> (False, t, Some e))"
proof -
  have a: "fst (processIngressClassName k sp vals) = None"
    by (simp add: processIngressClassName_def Let_def)
  have b: "fst (Process env appMeta obj) = True" if g: "GVK obj = ingressGVC"
    unfolding Process_matching [OF g] by (simp split: sum.splits prod.splits)
  have c: "Process env appMeta obj \<noteq> (False, t, Some e)" for t e
  proof (cases "GVK obj = ingressGVC")
    case True
    then show ?thesis using b by (metis fst_conv)
  next
    case False
    then show ?thesis by (simp add: Process_def)
  qed
  show ?thesis using a b c by blast
qed

theorem C10_class_name_never_fails_witness:
  "GVK appIngressDoc = ingressGVC \<and> fst (Process quietEnv prefixMeta appIngressDoc) = True \<and>
   fst (processIngressClassName ''appIngress'' appIngressSpec []) = None"
proof -
  have g: "GVK appIngressDoc = ingressGVC" by (simp add: appIngressDoc_def)
  show ?thesis
    using g C10_class_name_never_fails
      [of "''appIngress''" appIngressSpec "[]" appIngressDoc quietEnv prefixMeta]
    by simp
qed

subsection \<open>The enabled flag\<close>

text \<open>
  C3. When the document's group/version/kind matches and \<open>Process\<close> ends without
  error, it returns a template whose values tree holds \<open>true\<close> at the path
  configKey, \<^verbatim>\<open>ingress\<close>, \<^verbatim>\<open>enabled\<close>, where configKey is the lower camel case of the
  trimmed name without the prefix \<^verbatim>\<open>controller-manager-\<close>.
\<close>

theorem C3_enabled_true:
  assumes "GVK obj = ingressGVC" and "Process env appMeta obj = (ok, t, None)"
  shows "\<exists>r. t = Some r \<and>
           lookupPath (VMap (Values r))
             [ToLowerCamel env (TrimPrefix (TrimName appMeta (GetName obj)) ''controller-manager-''),
              ''ingress'', ''enabled''] = Some (VBool True)"
  using assms(2) unfolding Process_matching [OF assms(1)]
  by (auto simp: Values_def builtValues_def deriveConfigKey_def split: sum.splits prod.splits)

theorem C3_enabled_true_witness:
  "GVK appIngressDoc = ingressGVC \<and>
   (\<exists>r. fst (snd (Process quietEnv prefixMeta appIngressDoc)) = Some r \<and>
        lookupPath (VMap (Values r)) [''appIngress'', ''ingress'', ''enabled''] = Some (VBool True))"
proof -
  have g: "GVK appIngressDoc = ingressGVC" by (simp add: appIngressDoc_def)
  have k: "ToLowerCamel quietEnv
             (TrimPrefix (TrimName prefixMeta (GetName appIngressDoc)) ''controller-manager-'')
           = ''appIngress''"
    using key_prefix by (simp add: deriveConfigKey_def appIngressDoc_def)
  show ?thesis
    using g C3_enabled_true [OF g run_prefix] unfolding k by (simp add: run_prefix)
qed

subsection \<open>The class selector\<close>

text \<open>
  C1. In a successful run of \<open>Process\<close> on a document converted to \<open>ing\<close>, the class
  selector is handled in two steps. First its concrete value, or the empty string
  when the field is absent, is written into the values tree at configKey,
  \<^verbatim>\<open>ingress\<close>, \<^verbatim>\<open>className\<close>. Then the field of the spec is overwritten with the
  template expression \<^verbatim>\<open>{{.Values.<configKey>.ingress.className}}\<close>: the spec that is
  serialized carries that expression. \<open>processIngressClassName\<close> overwrites the field
  on every input, whether a class was present or not.
\<close>

theorem C1_class_name_templated:
  assumes "FromUnstructured env (Object obj) = Inr ing"
      and "Process env appMeta obj = (True, Some r, None)"
      and "key = ToLowerCamel env (TrimPrefix (TrimName appMeta (GetName obj)) ''controller-manager-'')"
  shows "lookupPath (VMap (Values r)) [key, ''ingress'', ''className''] =
           Some (VString (case IngressClassName (Spec ing) of None \<Rightarrow> [] | Some c \<Rightarrow> c)) \<and>
         Marshal env
           [(''spec'', (processIngressSpec appMeta (Spec ing))
                \<lparr>IngressClassName := Some (''{{.Values.'' @ key @ ''.ingress.className}}'')\<rparr>)] 0
           = Inr (dataSpec (data r)) \<and>
         (\<forall>k sp vals.
            fst (snd (processIngressClassName k sp vals)) =
              sp\<lparr>IngressClassName := Some (''{{.Values.'' @ k @ ''.ingress.className}}'')\<rparr>)"
proof -
  have k: "key = deriveConfigKey env appMeta (GetName obj)"
    using assms(3) by (simp add: deriveConfigKey_def)
  obtain ing' meta av spec where
    i: "FromUnstructured env (Object obj) = Inr ing'" and
    m: "Marshal env
          [(''spec'', (processIngressSpec appMeta (Spec ing'))
               \<lparr>IngressClassName := Some (classNameTemplate key)\<rparr>)] 0 = Inr spec" and
    r: "r = \<lparr>name = TrimName appMeta (GetName obj) @ ''.yaml'',
             data = \<lparr>dataIf = ifOpen key, dataMeta = meta, dataSpec = spec,
                     dataEnd = ''{{- end }}''\<rparr>,
             resValues = builtValues key (IngressClassName (Spec ing')) (GetAnnotations obj)\<rparr>"
    using Process_success [OF assms(2)] unfolding k by blast
  have same: "ing' = ing" using i assms(1) by simp
  have a: "lookupPath (VMap (Values r)) [key, ''ingress'', ''className''] =
           Some (VString (case IngressClassName (Spec ing) of None \<Rightarrow> [] | Some c \<Rightarrow> c))"
    by (simp add: r same Values_def builtValues_def)
  have b: "Marshal env
           [(''spec'', (processIngressSpec appMeta (Spec ing))
                \<lparr>IngressClassName := Some (''{{.Values.'' @ key @ ''.ingress.className}}'')\<rparr>)] 0
           = Inr (dataSpec (data r))"
    using m by (simp add: r same classNameTemplate_def)
  have c: "fst (snd (processIngressClassName k sp vals)) =
              sp\<lparr>IngressClassName := Some (''{{.Values.'' @ k @ ''.ingress.className}}'')\<rparr>"
    for k sp vals
    by (simp add: processIngressClassName_def Let_def classNameTemplate_def)
  show ?thesis using a b c by blast
qed

theorem C1_class_name_templated_witness:
  "FromUnstructured quietEnv (Object appIngressDoc) = Inr \<lparr>Spec = appIngressSpec\<rparr> \<and>
   Process quietEnv prefixMeta appIngressDoc = (True, Some trimmedResult, None) \<and>
   lookupPath (VMap (Values trimmedResult)) [''appIngress'', ''ingress'', ''className''] =
     Some (VString ''nginx'') \<and>
   Marshal quietEnv
     [(''spec'', (processIngressSpec prefixMeta appIngressSpec)
          \<lparr>IngressClassName := Some ''{{.Values.appIngress.ingress.className}}''\<rparr>)] 0
     = Inr (dataSpec (data trimmedResult)) \<and>
   IngressClassName fallbackSpec = None \<and>
   Process (quietEnv\<lparr>FromUnstructured := (\<lambda>v. Inr \<lparr>Spec = fallbackSpec\<rparr>)\<rparr>) prefixMeta appIngressDoc =
     (True,
      Some (trimmedResult\<lparr>resValues := builtValues ''appIngress'' None [(''owner'', ''team-a'')]\<rparr>),
      None) \<and>
   lookupPath
     (VMap (Values (trimmedResult\<lparr>resValues := builtValues ''appIngress'' None [(''owner'', ''team-a'')]\<rparr>)))
     [''appIngress'', ''ingress'', ''className''] = Some (VString []) \<and>
   Marshal quietEnv
     [(''spec'', (processIngressSpec prefixMeta fallbackSpec)
          \<lparr>IngressClassName := Some ''{{.Values.appIngress.ingress.className}}''\<rparr>)] 0
     = Inr ''spec: {{.Values.appIngress.ingress.className}}''"
proof -
  let ?env = "quietEnv\<lparr>FromUnstructured := (\<lambda>v. Inr \<lparr>Spec = fallbackSpec\<rparr>)\<rparr>"
  have conv: "FromUnstructured ?env (Object appIngressDoc) = Inr \<lparr>Spec = fallbackSpec\<rparr>"
    by simp
  have key: "ToLowerCamel ?env
               (TrimPrefix (TrimName prefixMeta (GetName appIngressDoc)) ''controller-manager-'')
             = ''appIngress''"
    using key_prefix_doc by simp
  have m: "Marshal ?env = Marshal quietEnv" by simp
  have none: "IngressClassName fallbackSpec = None" by (simp add: fallbackSpec_def)
  show ?thesis
    using C1_class_name_templated [OF convert_app run_prefix key_prefix_doc [symmetric]]
      C1_class_name_templated [OF conv run_no_class key [symmetric]]
      convert_app run_prefix run_no_class none
    unfolding m
    by (simp add: appIngressSpec_def trimmedResult_def)
qed

subsection \<open>The rendered template\<close>

text \<open>
  C8. In a successful run the text written by the result consists of four blocks in
  this order, one per line: the conditional opening
  \<^verbatim>\<open>{{- if .Values.<configKey>.ingress.enabled }}\<close>, the metadata block returned by
  the metadata processor, the serialization of the map with the single key \<^verbatim>\<open>spec\<close>
  holding the rewritten spec, and the closing \<^verbatim>\<open>{{- end }}\<close>. The file name is the
  trimmed name followed by \<^verbatim>\<open>.yaml\<close>.
\<close>

theorem C8_four_blocks:
  assumes "Process env appMeta obj = (True, Some r, None)"
      and "key = ToLowerCamel env (TrimPrefix (TrimName appMeta (GetName obj)) ''controller-manager-'')"
  shows "\<exists>ing meta av spec.
           FromUnstructured env (Object obj) = Inr ing \<and>
           ProcessObjMeta env appMeta obj [] = Inr (meta, av) \<and>
           Marshal env
             [(''spec'', (processIngressSpec appMeta (Spec ing))
                  \<lparr>IngressClassName := Some (''{{.Values.'' @ key @ ''.ingress.className}}'')\<rparr>)] 0
             = Inr spec \<and>
           Write r =
             ''{{- if .Values.'' @ key @ ''.ingress.enabled }}'' @ [CHR 0x0A] @
             meta @ [CHR 0x0A] @
             spec @ [CHR 0x0A] @
             ''{{- end }}'' \<and>
           Filename r = TrimName appMeta (GetName obj) @ ''.yaml''"
proof -
  have k: "key = deriveConfigKey env appMeta (GetName obj)"
    using assms(2) by (simp add: deriveConfigKey_def)
  obtain ing meta av spec where
    i: "FromUnstructured env (Object obj) = Inr ing" and
    p: "ProcessObjMeta env appMeta obj [] = Inr (meta, av)" and
    m: "Marshal env
          [(''spec'', (processIngressSpec appMeta (Spec ing))
               \<lparr>IngressClassName := Some (classNameTemplate key)\<rparr>)] 0 = Inr spec" and
    r: "r = \<lparr>name = TrimName appMeta (GetName obj) @ ''.yaml'',
             data = \<lparr>dataIf = ifOpen key, dataMeta = meta, dataSpec = spec,
                     dataEnd = ''{{- end }}''\<rparr>,
             resValues = builtValues key (IngressClassName (Spec ing)) (GetAnnotations obj)\<rparr>"
    using Process_success [OF assms(1)] unfolding k by blast
  have w: "Write r =
             ''{{- if .Values.'' @ key @ ''.ingress.enabled }}'' @ [CHR 0x0A] @
             meta @ [CHR 0x0A] @ spec @ [CHR 0x0A] @ ''{{- end }}''"
    by (simp add: r Write_def newline_def ifOpen_def)
  have f: "Filename r = TrimName appMeta (GetName obj) @ ''.yaml''"
    by (simp add: r Filename_def)
  from i p m w f show ?thesis
    unfolding classNameTemplate_def by blast
qed

theorem C8_four_blocks_witness:
  "Process quietEnv prefixMeta appIngressDoc = (True, Some trimmedResult, None) \<and>
   Write trimmedResult =
     ''{{- if .Values.appIngress.ingress.enabled }}'' @ [CHR 0x0A] @
     ''metadata:'' @ [CHR 0x0A] @
     ''spec: {{.Values.appIngress.ingress.className}}'' @ [CHR 0x0A] @
     ''{{- end }}'' \<and>
   Filename trimmedResult = ''app-ingress.yaml''"
proof -
  have p: "ProcessObjMeta quietEnv prefixMeta appIngressDoc [] = Inr (''metadata:'', [])"
    by (simp add: quietEnv_def)
  have t: "TrimName prefixMeta (GetName appIngressDoc) = ''app-ingress''"
    by (simp add: prefixMeta_def appIngressDoc_def trim_app_ingress)
  have m: "Marshal quietEnv [(''spec'', sp\<lparr>IngressClassName := Some c\<rparr>)] 0 = Inr (''spec: '' @ c)"
    for sp c by (simp add: quietEnv_def)
  show ?thesis
    using C8_four_blocks [OF run_prefix key_prefix_doc [symmetric]] run_prefix
    by (auto simp: p t m)
qed

subsection \<open>The configuration key\<close>

text \<open>
  C5. The configuration key is the chain
  \<open>ToLowerCamel (TrimPrefix (TrimName rawName) ''controller-manager-'')\<close> of pure
  functions. In a successful run it is the only root of the values tree and the key
  named in the conditional opening, and two successful runs (with the same
  collaborators and application metadata) on documents of the same name use the same
  key, whatever else differs in the documents.
\<close>

theorem C5_config_key:
  assumes "Process env appMeta obj = (True, Some r, None)"
  shows "map fst (Values r) =
           [ToLowerCamel env (TrimPrefix (TrimName appMeta (GetName obj)) ''controller-manager-'')] \<and>
         dataIf (data r) =
           ''{{- if .Values.'' @
           ToLowerCamel env (TrimPrefix (TrimName appMeta (GetName obj)) ''controller-manager-'') @
           ''.ingress.enabled }}'' \<and>
         (\<forall>obj' r'. GetName obj' = GetName obj \<and> Process env appMeta obj' = (True, Some r', None)
            \<longrightarrow> map fst (Values r') = map fst (Values r) \<and> dataIf (data r') = dataIf (data r))"
proof -
  have one: "map fst (Values x) = [deriveConfigKey env appMeta (GetName o')] \<and>
             dataIf (data x) = ifOpen (deriveConfigKey env appMeta (GetName o'))"
    if "Process env appMeta o' = (True, Some x, None)" for o' x
    using Process_success [OF that] by (auto simp: Values_def builtValues_roots)
  show ?thesis
    using one [OF assms] one
    by (auto simp: deriveConfigKey_def ifOpen_def)
qed

theorem C5_config_key_witness:
  "Process quietEnv prefixMeta appIngressDoc = (True, Some trimmedResult, None) \<and>
   map fst (Values trimmedResult) = [''appIngress''] \<and>
   dataIf (data trimmedResult) = ''{{- if .Values.appIngress.ingress.enabled }}'' \<and>
   GetName (appIngressDoc\<lparr>GetAnnotations := []\<rparr>) = GetName appIngressDoc \<and>
   Process quietEnv prefixMeta (appIngressDoc\<lparr>GetAnnotations := []\<rparr>) =
     (True, Some (trimmedResult\<lparr>resValues := builtValues ''appIngress'' (Some ''nginx'') []\<rparr>), None) \<and>
   map fst (Values (trimmedResult\<lparr>resValues := builtValues ''appIngress'' (Some ''nginx'') []\<rparr>)) =
     map fst (Values trimmedResult)"
proof -
  let ?doc = "appIngressDoc\<lparr>GetAnnotations := []\<rparr>"
  let ?res = "trimmedResult\<lparr>resValues := builtValues ''appIngress'' (Some ''nginx'') []\<rparr>"
  have g: "GVK ?doc = ingressGVC" by (simp add: appIngressDoc_def)
  have n: "GetName ?doc = ''controller-manager-app-ingress''" by (simp add: appIngressDoc_def)
  have run2: "Process quietEnv prefixMeta ?doc = (True, Some ?res, None)"
    unfolding Process_matching [OF g] n key_prefix
    by (simp add: appIngressDoc_def quietEnv_def prefixMeta_def appIngressSpec_def
          trim_app_ingress classNameTemplate_def ifOpen_def trimmedResult_def)
  have same: "GetName ?doc = GetName appIngressDoc" by simp
  from C5_config_key [OF run_prefix]
  have "map fst (Values trimmedResult) =
          [ToLowerCamel quietEnv
             (TrimPrefix (TrimName prefixMeta (GetName appIngressDoc)) ''controller-manager-'')]"
    and "dataIf (data trimmedResult) =
           ''{{- if .Values.'' @
           ToLowerCamel quietEnv
             (TrimPrefix (TrimName prefixMeta (GetName appIngressDoc)) ''controller-manager-'') @
           ''.ingress.enabled }}''"
    and "GetName ?doc = GetName appIngressDoc \<and> Process quietEnv prefixMeta ?doc = (True, Some ?res, None)
            \<longrightarrow> map fst (Values ?res) = map fst (Values trimmedResult)"
    by blast+
  then show ?thesis
    using run_prefix run2 same unfolding key_prefix_doc by simp
qed

subsection \<open>Writes stay under the configuration key\<close>

text \<open>
  C7. In a successful run every path of the returned values tree starts with the
  run's own configuration key: the rule writes nowhere else. Hence the trees of two
  successful runs with different keys have no root in common, and their deep union
  holds at every path exactly what one of the two trees holds there.
\<close>

theorem C7_own_subtree:
  assumes "Process env appMeta obj = (True, Some r, None)"
      and "key = ToLowerCamel env (TrimPrefix (TrimName appMeta (GetName obj)) ''controller-manager-'')"
  shows "(\<forall>p \<in> set (valuePaths (VMap (Values r))). p \<noteq> [] \<longrightarrow> hd p = key) \<and>
         (\<forall>env' appMeta' obj' r'.
            Process env' appMeta' obj' = (True, Some r', None) \<and>
            ToLowerCamel env' (TrimPrefix (TrimName appMeta' (GetName obj')) ''controller-manager-'')
              \<noteq> key \<longrightarrow>
            set (map fst (Values r)) \<inter> set (map fst (Values r')) = {} \<and>
            (\<forall>p v. p \<noteq> [] \<longrightarrow>
               (lookupPath (VMap (deepUnion (Values r) (Values r'))) p = Some v \<longleftrightarrow>
                lookupPath (VMap (Values r)) p = Some v \<or>
                lookupPath (VMap (Values r')) p = Some v)))"
proof -
  have k: "key = deriveConfigKey env appMeta (GetName obj)"
    using assms(2) by (simp add: deriveConfigKey_def)
  obtain c a where r: "Values r = builtValues key c a"
    using Process_success [OF assms(1)] unfolding k by (auto simp: Values_def)
  have paths: "\<forall>p \<in> set (valuePaths (VMap (Values r))). p \<noteq> [] \<longrightarrow> hd p = key"
    unfolding r using builtValues_paths by blast
  have merge: "set (map fst (Values r)) \<inter> set (map fst (Values r')) = {} \<and>
            (\<forall>p v. p \<noteq> [] \<longrightarrow>
               (lookupPath (VMap (deepUnion (Values r) (Values r'))) p = Some v \<longleftrightarrow>
                lookupPath (VMap (Values r)) p = Some v \<or>
                lookupPath (VMap (Values r')) p = Some v))"
    if run: "Process env' appMeta' obj' = (True, Some r', None)"
      and ne: "ToLowerCamel env' (TrimPrefix (TrimName appMeta' (GetName obj')) ''controller-manager-'') \<noteq> key"
    for env' appMeta' obj' r'
  proof -
    obtain c' a' where r': "Values r' = builtValues (deriveConfigKey env' appMeta' (GetName obj')) c' a'"
      using Process_success [OF run] by (auto simp: Values_def)
    have d: "key \<noteq> deriveConfigKey env' appMeta' (GetName obj')"
      using ne by (auto simp: deriveConfigKey_def)
    show ?thesis
      unfolding r r' using d union_lookup [OF d] by (simp add: builtValues_roots)
  qed
  show ?thesis using paths merge by blast
qed

theorem C7_own_subtree_witness:
  "Process quietEnv prefixMeta appIngressDoc = (True, Some trimmedResult, None) \<and>
   [''appIngress'', ''ingress'', ''enabled''] \<in> set (valuePaths (VMap (Values trimmedResult))) \<and>
   hd [''appIngress'', ''ingress'', ''enabled''] = ''appIngress'' \<and>
   ''web'' \<noteq> ''appIngress'' \<and>
   lookupPath
     (VMap (deepUnion (Values trimmedResult) (builtValues ''web'' (Some ''nginx'') [(''owner'', ''team-a'')])))
     [''web'', ''ingress'', ''className''] = Some (VString ''nginx'') \<and>
   lookupPath
     (VMap (deepUnion (Values trimmedResult) (builtValues ''web'' (Some ''nginx'') [(''owner'', ''team-a'')])))
     [''appIngress'', ''ingress'', ''enabled''] = Some (VBool True)"
proof -
  let ?doc = "appIngressDoc\<lparr>GetName := ''web''\<rparr>"
  let ?web = "trimmedResult\<lparr>name := ''web.yaml'',
              data := (data trimmedResult)\<lparr>dataIf := ''{{- if .Values.web.ingress.enabled }}'',
                        dataSpec := ''spec: {{.Values.web.ingress.className}}''\<rparr>,
              resValues := builtValues ''web'' (Some ''nginx'') [(''owner'', ''team-a'')]\<rparr>"
  have kw: "ToLowerCamel quietEnv (TrimPrefix (TrimName prefixMeta (GetName ?doc)) ''controller-manager-'') = ''web''"
    by (simp add: quietEnv_def prefixMeta_def TrimPrefix_def)
  have mem: "[''appIngress'', ''ingress'', ''enabled''] \<in> set (valuePaths (VMap (Values trimmedResult)))"
    by (simp add: Values_def trimmedResult_def)
  have lw: "lookupPath (VMap (Values ?web)) [''web'', ''ingress'', ''className''] = Some (VString ''nginx'')"
    by (simp add: Values_def builtValues_def)
  have la: "lookupPath (VMap (Values trimmedResult)) [''appIngress'', ''ingress'', ''enabled''] = Some (VBool True)"
    by (simp add: Values_def trimmedResult_def)
  note C7 = C7_own_subtree [OF run_prefix key_prefix_doc [symmetric]]
  have ne: "ToLowerCamel quietEnv (TrimPrefix (TrimName prefixMeta (GetName ?doc)) ''controller-manager-'') \<noteq> ''appIngress''"
    unfolding kw by simp
  from C7 have hd: "hd [''appIngress'', ''ingress'', ''enabled''] = ''appIngress''"
    using mem by simp
  from C7 run_web ne
  have u: "\<forall>p v. p \<noteq> [] \<longrightarrow>
               (lookupPath (VMap (deepUnion (Values trimmedResult) (Values ?web))) p = Some v \<longleftrightarrow>
                lookupPath (VMap (Values trimmedResult)) p = Some v \<or>
                lookupPath (VMap (Values ?web)) p = Some v)"
    by blast
  have u1: "lookupPath (VMap (deepUnion (Values trimmedResult) (Values ?web)))
              [''web'', ''ingress'', ''className''] = Some (VString ''nginx'')"
    using u lw by blast
  have u2: "lookupPath (VMap (deepUnion (Values trimmedResult) (Values ?web)))
              [''appIngress'', ''ingress'', ''enabled''] = Some (VBool True)"
    using u la by blast
  have vw: "Values ?web = builtValues ''web'' (Some ''nginx'') [(''owner'', ''team-a'')]"
    by (simp add: Values_def)
  show ?thesis
    using run_prefix mem hd u1 u2 unfolding vw by simp
qed

subsection \<open>Backend references\<close>

text \<open>
  C2. \<open>processIngressSpec\<close> rewrites the name of every backend service to what
  \<open>TemplatedName\<close> returns for it: in the default backend when the default backend and
  its service reference are present, and in every path of every rule whose HTTP
  section and service reference are present. It has no error result. A missing
  default backend stays missing, an empty list of rules stays empty, and a rule
  without HTTP section or without paths stays as it is; no rule is added or dropped.
  Altogether the loops of the source compute the loop-free rewriting \<open>rewriteBackend\<close>,
  \<open>rewriteRule\<close> of the default backend and of the rules, and leave the other fields
  of the spec alone.
\<close>

theorem C2_backends_rewritten:
  "processIngressSpec appMeta sp =
     sp\<lparr>DefaultBackend := map_option (rewriteBackend (TemplatedName appMeta)) (DefaultBackend sp),
        Rules := map (rewriteRule (TemplatedName appMeta)) (Rules sp)\<rparr> \<and>
   (\<forall>b s. DefaultBackend sp = Some b \<and> Service b = Some s \<longrightarrow>
      DefaultBackend (processIngressSpec appMeta sp) =
        Some (b\<lparr>Service := Some (s\<lparr>Name := TemplatedName appMeta (Name s)\<rparr>)\<rparr>)) \<and>
   (\<forall>i h j s.
      i < length (Rules sp) \<and> HTTP (IngressRuleValue (Rules sp ! i)) = Some h \<and>
      j < length (Paths h) \<and> Service (Backend (Paths h ! j)) = Some s \<longrightarrow>
      (\<exists>h'. HTTP (IngressRuleValue (Rules (processIngressSpec appMeta sp) ! i)) = Some h' \<and>
            length (Paths h') = length (Paths h) \<and>
            Paths h' ! j =
              (Paths h ! j)\<lparr>Backend :=
                 (Backend (Paths h ! j))\<lparr>Service :=
                    Some (s\<lparr>Name := TemplatedName appMeta (Name s)\<rparr>)\<rparr>\<rparr>)) \<and>
   length (Rules (processIngressSpec appMeta sp)) = length (Rules sp) \<and>
   (DefaultBackend sp = None \<longrightarrow> DefaultBackend (processIngressSpec appMeta sp) = None) \<and>
   (Rules sp = [] \<longrightarrow> Rules (processIngressSpec appMeta sp) = []) \<and>
   (\<forall>i. i < length (Rules sp) \<and> HTTP (IngressRuleValue (Rules sp ! i)) = None \<longrightarrow>
      Rules (processIngressSpec appMeta sp) ! i = Rules sp ! i) \<and>
   (\<forall>i h. i < length (Rules sp) \<and> HTTP (IngressRuleValue (Rules sp ! i)) = Some h \<and>
      Paths h = [] \<longrightarrow> Rules (processIngressSpec appMeta sp) ! i = Rules sp ! i)"
proof -
  let ?tn = "TemplatedName appMeta"
  let ?sp = "processIngressSpec appMeta sp"
  have eq: "?sp = sp\<lparr>DefaultBackend := map_option (rewriteBackend ?tn) (DefaultBackend sp),
                     Rules := map (rewriteRule ?tn) (Rules sp)\<rparr>"
    by (rule processIngressSpec_eq)
  have db: "DefaultBackend ?sp = Some (b\<lparr>Service := Some (s\<lparr>Name := ?tn (Name s)\<rparr>)\<rparr>)"
    if "DefaultBackend sp = Some b" "Service b = Some s" for b s
    using that by (simp add: eq rewriteBackend_def)
  have path: "\<exists>h'. HTTP (IngressRuleValue (Rules ?sp ! i)) = Some h' \<and>
            length (Paths h') = length (Paths h) \<and>
            Paths h' ! j =
              (Paths h ! j)\<lparr>Backend :=
                 (Backend (Paths h ! j))\<lparr>Service := Some (s\<lparr>Name := ?tn (Name s)\<rparr>)\<rparr>\<rparr>"
    if "i < length (Rules sp)" "HTTP (IngressRuleValue (Rules sp ! i)) = Some h"
       "j < length (Paths h)" "Service (Backend (Paths h ! j)) = Some s" for i h j s
    using that by (simp add: eq rewriteRule_def rewritePath_def rewriteBackend_def)
  have len: "length (Rules ?sp) = length (Rules sp)" by (simp add: eq)
  have nodb: "DefaultBackend ?sp = None" if "DefaultBackend sp = None"
    using that by (simp add: eq)
  have norules: "Rules ?sp = []" if "Rules sp = []"
    using that by (simp add: eq)
  have nohttp: "Rules ?sp ! i = Rules sp ! i"
    if "i < length (Rules sp)" "HTTP (IngressRuleValue (Rules sp ! i)) = None" for i
    using that by (simp add: eq rewriteRule_def)
  have nopaths: "Rules ?sp ! i = Rules sp ! i"
    if "i < length (Rules sp)" "HTTP (IngressRuleValue (Rules sp ! i)) = Some h" "Paths h = []" for i h
  proof -
    have "rewriteRule ?tn (Rules sp ! i) =
            (Rules sp ! i)\<lparr>IngressRuleValue :=
               (IngressRuleValue (Rules sp ! i))\<lparr>HTTP := Some (h\<lparr>Paths := Paths h\<rparr>)\<rparr>\<rparr>"
      using that(2,3) by (simp add: rewriteRule_def)
    also have "\<dots> = Rules sp ! i"
      using that(2) by simp
    finally show ?thesis using that(1) by (simp add: eq)
  qed
  show ?thesis
    using eq db path len nodb norules nohttp nopaths by blast
qed

theorem C2_backends_rewritten_witness:
  "DefaultBackend fallbackSpec =
     Some \<lparr>Service = Some \<lparr>Name = ''fallback'', Port = \<lparr>PortName = ''http'', Number = 0\<rparr>\<rparr>,
           Resource = None\<rparr> \<and>
   DefaultBackend (processIngressSpec plainMeta fallbackSpec) =
     Some \<lparr>Service = Some \<lparr>Name = ''{{ .Release.Name }}-fallback'',
                            Port = \<lparr>PortName = ''http'', Number = 0\<rparr>\<rparr>,
           Resource = None\<rparr> \<and>
   HTTP (IngressRuleValue (Rules fallbackSpec ! 0)) = None \<and>
   HTTP (IngressRuleValue (Rules fallbackSpec ! 1)) = Some \<lparr>Paths = []\<rparr> \<and>
   Rules (processIngressSpec plainMeta fallbackSpec) = Rules fallbackSpec \<and>
   Service (Backend (Paths \<lparr>Paths = [appSvcPath]\<rparr> ! 0)) =
     Some \<lparr>Name = ''app-svc'', Port = \<lparr>PortName = [], Number = 80\<rparr>\<rparr> \<and>
   map (\<lambda>rule. map_option (\<lambda>h. map (\<lambda>p. map_option Name (Service (Backend p))) (Paths h))
                 (HTTP (IngressRuleValue rule))) (Rules (processIngressSpec plainMeta appIngressSpec))
     = [Some [Some ''{{ .Release.Name }}-app-svc'']] \<and>
   DefaultBackend emptySpec = None \<and> Rules emptySpec = [] \<and>
   processIngressSpec plainMeta emptySpec = emptySpec"
  using C2_backends_rewritten [of plainMeta fallbackSpec]
    C2_backends_rewritten [of plainMeta appIngressSpec]
    C2_backends_rewritten [of plainMeta emptySpec]
  by (simp add: fallbackSpec_def appIngressSpec_def emptySpec_def appSvcPath_def plainMeta_def
        rewriteRule_def rewritePath_def rewriteBackend_def)

subsection \<open>The values tree and the annotation sink\<close>



subsection \<open>The round-trip scenario\<close>

text \<open>
  C9 as stated does not hold of the code for every application metadata.
  The scenario's document, run with application metadata that has no prefix to trim:
  the configuration key is \<^verbatim>\<open>appIngress\<close>, but the file name keeps the prefix
  \<^verbatim>\<open>controller-manager-\<close>, which \<open>Process\<close> strips for the key only.
\<close>

theorem C9_filename_counterexample:
  "GVK appIngressDoc = ingressGVC \<and>
   GetName appIngressDoc = ''controller-manager-app-ingress'' \<and>
   FromUnstructured quietEnv (Object appIngressDoc) = Inr \<lparr>Spec = appIngressSpec\<rparr> \<and>
   IngressClassName appIngressSpec = Some ''nginx'' \<and>
   map (\<lambda>rule. map_option (\<lambda>h. map (\<lambda>p. map_option Name (Service (Backend p))) (Paths h))
                 (HTTP (IngressRuleValue rule))) (Rules appIngressSpec) = [Some [Some ''app-svc'']] \<and>
   Process quietEnv plainMeta appIngressDoc = (True, Some untrimmedResult, None) \<and>
   Filename untrimmedResult = ''controller-manager-app-ingress.yaml'' \<and>
   Filename untrimmedResult \<noteq> ''app-ingress.yaml''"
  using convert_app run_plain
  by (simp add: appIngressDoc_def appIngressSpec_def appSvcPath_def Filename_def
        untrimmedResult_def trimmedResult_def)

text \<open>
  C9, as the code has it. For a document named \<^verbatim>\<open>controller-manager-app-ingress\<close> of
  class \<^verbatim>\<open>nginx\<close> with one rule and one path to the service \<^verbatim>\<open>app-svc\<close>: when the
  name returned by the application metadata, without the prefix
  \<^verbatim>\<open>controller-manager-\<close>, is \<^verbatim>\<open>app-ingress\<close> and the camel-case conversion turns
  that into \<^verbatim>\<open>appIngress\<close>, a successful run has the configuration key
  \<^verbatim>\<open>appIngress\<close>, the values \<open>enabled = true\<close> and \<open>className = nginx\<close> under
  \<^verbatim>\<open>appIngress.ingress\<close>, and the path's service name rewritten to the templated
  name of \<^verbatim>\<open>app-svc\<close>. The file name is the name returned by the application
  metadata followed by \<^verbatim>\<open>.yaml\<close>; it is \<^verbatim>\<open>app-ingress.yaml\<close> when the application
  metadata itself trims the name to \<^verbatim>\<open>app-ingress\<close>.
\<close>

theorem C9_round_trip:
  assumes "GetName obj = ''controller-manager-app-ingress''"
      and "FromUnstructured env (Object obj) = Inr ing"
      and "IngressClassName (Spec ing) = Some ''nginx''"
      and "Rules (Spec ing) = [rule]"
      and "HTTP (IngressRuleValue rule) = Some h"
      and "Paths h = [p]"
      and "Service (Backend p) = Some s"
      and "Name s = ''app-svc''"
      and "TrimPrefix (TrimName appMeta ''controller-manager-app-ingress'') ''controller-manager-''
             = ''app-ingress''"
      and "ToLowerCamel env ''app-ingress'' = ''appIngress''"
      and "Process env appMeta obj = (True, Some r, None)"
  shows "map fst (Values r) = [''appIngress''] \<and>
         dataIf (data r) = ''{{- if .Values.appIngress.ingress.enabled }}'' \<and>
         Filename r = TrimName appMeta ''controller-manager-app-ingress'' @ ''.yaml'' \<and>
         (TrimName appMeta ''controller-manager-app-ingress'' = ''app-ingress''
            \<longrightarrow> Filename r = ''app-ingress.yaml'') \<and>
         lookupPath (VMap (Values r)) [''appIngress'', ''ingress'', ''enabled''] = Some (VBool True) \<and>
         lookupPath (VMap (Values r)) [''appIngress'', ''ingress'', ''className'']
           = Some (VString ''nginx'') \<and>
         Marshal env
           [(''spec'', (processIngressSpec appMeta (Spec ing))
                \<lparr>IngressClassName := Some ''{{.Values.appIngress.ingress.className}}''\<rparr>)] 0
           = Inr (dataSpec (data r)) \<and>
         Rules (processIngressSpec appMeta (Spec ing)) =
           [rule\<lparr>IngressRuleValue :=
              (IngressRuleValue rule)\<lparr>HTTP :=
                 Some (h\<lparr>Paths :=
                   [p\<lparr>Backend :=
                      (Backend p)\<lparr>Service :=
                         Some (s\<lparr>Name := TemplatedName appMeta ''app-svc''\<rparr>)\<rparr>\<rparr>]\<rparr>)\<rparr>\<rparr>]"
proof -
  have k: "deriveConfigKey env appMeta (GetName obj) = ''appIngress''"
    using assms(1,9,10) by (simp add: deriveConfigKey_def)
  obtain ing' meta av spec where
    i: "FromUnstructured env (Object obj) = Inr ing'" and
    m: "Marshal env
          [(''spec'', (processIngressSpec appMeta (Spec ing'))
               \<lparr>IngressClassName := Some (classNameTemplate ''appIngress'')\<rparr>)] 0 = Inr spec" and
    r: "r = \<lparr>name = TrimName appMeta (GetName obj) @ ''.yaml'',
             data = \<lparr>dataIf = ifOpen ''appIngress'', dataMeta = meta, dataSpec = spec,
                     dataEnd = ''{{- end }}''\<rparr>,
             resValues = builtValues ''appIngress'' (IngressClassName (Spec ing')) (GetAnnotations obj)\<rparr>"
    using Process_success [OF assms(11)] unfolding k by blast
  have same: "ing' = ing" using i assms(2) by simp
  have v: "map fst (Values r) = [''appIngress'']"
    by (simp add: r Values_def builtValues_roots)
  have c: "dataIf (data r) = ''{{- if .Values.appIngress.ingress.enabled }}''"
    by (simp add: r ifOpen_def)
  have f: "Filename r = TrimName appMeta ''controller-manager-app-ingress'' @ ''.yaml''"
    by (simp add: r Filename_def assms(1))
  have e: "lookupPath (VMap (Values r)) [''appIngress'', ''ingress'', ''enabled''] = Some (VBool True)"
    by (simp add: r Values_def builtValues_def)
  have n: "lookupPath (VMap (Values r)) [''appIngress'', ''ingress'', ''className'']
           = Some (VString ''nginx'')"
    by (simp add: r same Values_def builtValues_def assms(3))
  have ms: "Marshal env
           [(''spec'', (processIngressSpec appMeta (Spec ing))
                \<lparr>IngressClassName := Some ''{{.Values.appIngress.ingress.className}}''\<rparr>)] 0
           = Inr (dataSpec (data r))"
    using m by (simp add: r same classNameTemplate_def)
  have rl: "Rules (processIngressSpec appMeta (Spec ing)) =
           [rule\<lparr>IngressRuleValue :=
              (IngressRuleValue rule)\<lparr>HTTP :=
                 Some (h\<lparr>Paths :=
                   [p\<lparr>Backend :=
                      (Backend p)\<lparr>Service :=
                         Some (s\<lparr>Name := TemplatedName appMeta ''app-svc''\<rparr>)\<rparr>\<rparr>]\<rparr>)\<rparr>\<rparr>]"
    by (simp add: processIngressSpec_eq assms(4-8) rewriteRule_def rewritePath_def
          rewriteBackend_def)
  show ?thesis using v c f e n ms rl by simp
qed

theorem C9_round_trip_witness:
  "GetName appIngressDoc = ''controller-manager-app-ingress'' \<and>
   FromUnstructured quietEnv (Object appIngressDoc) = Inr \<lparr>Spec = appIngressSpec\<rparr> \<and>
   IngressClassName appIngressSpec = Some ''nginx'' \<and>
   TrimName prefixMeta ''controller-manager-app-ingress'' = ''app-ingress'' \<and>
   ToLowerCamel quietEnv ''app-ingress'' = ''appIngress'' \<and>
   Process quietEnv prefixMeta appIngressDoc = (True, Some trimmedResult, None) \<and>
   map fst (Values trimmedResult) = [''appIngress''] \<and>
   Filename trimmedResult = ''app-ingress.yaml'' \<and>
   map (\<lambda>rule. map_option (\<lambda>h. map (\<lambda>p. map_option Name (Service (Backend p))) (Paths h))
                 (HTTP (IngressRuleValue rule))) (Rules (processIngressSpec prefixMeta appIngressSpec))
     = [Some [Some ''{{ .Release.Name }}-app-svc'']]"
proof -
  let ?s = "\<lparr>Name = ''app-svc'', Port = \<lparr>PortName = [], Number = 80\<rparr>\<rparr>"
  let ?h = "\<lparr>Paths = [appSvcPath]\<rparr>"
  let ?rule = "\<lparr>Host = ''app.example.com'', IngressRuleValue = \<lparr>HTTP = Some ?h\<rparr>\<rparr>"
  have a1: "GetName appIngressDoc = ''controller-manager-app-ingress''"
    by (simp add: appIngressDoc_def)
  have a3: "IngressClassName (Spec \<lparr>Spec = appIngressSpec\<rparr>) = Some ''nginx''"
    by (simp add: appIngressSpec_def)
  have a4: "Rules (Spec \<lparr>Spec = appIngressSpec\<rparr>) = [?rule]"
    by (simp add: appIngressSpec_def)
  have a5: "HTTP (IngressRuleValue ?rule) = Some ?h" by simp
  have a6: "Paths ?h = [appSvcPath]" by simp
  have a7: "Service (Backend appSvcPath) = Some ?s" by (simp add: appSvcPath_def)
  have a8: "Name ?s = ''app-svc''" by simp
  have t: "TrimName prefixMeta ''controller-manager-app-ingress'' = ''app-ingress''"
    by (simp add: prefixMeta_def trim_app_ingress)
  have a9: "TrimPrefix (TrimName prefixMeta ''controller-manager-app-ingress'') ''controller-manager-''
             = ''app-ingress''"
    by (simp add: t trim_app_ingress)
  have a10: "ToLowerCamel quietEnv ''app-ingress'' = ''appIngress''"
    by (simp add: quietEnv_def upperByte_def)
  have tn: "TemplatedName prefixMeta ''app-svc'' = ''{{ .Release.Name }}-app-svc''"
    by (simp add: prefixMeta_def)
  show ?thesis
    using C9_round_trip [OF a1 convert_app a3 a4 a5 a6 a7 a8 a9 a10 run_prefix]
      a1 convert_app a3 t a10 run_prefix
    by (simp add: tn appSvcPath_def)
qed

end
